theory Spec2Isabelle
  imports Main
begin

section \<open>Data model of \<open>atomai/utils/preproc.py\<close>\<close>

text \<open>
  The exceptions the preprocessing helpers can end with. \<open>AssertionError\<close> is what the
  specification calls \<open>InvalidLabelEncoding\<close>, \<open>TypeError\<close> is its \<open>InvalidInputType\<close>;
  \<open>ValueError\<close>, \<open>IndexError\<close> and \<open>OverflowError\<close> are raised by the Python and numpy
  primitives the helpers call (\<open>min\<close> of an empty sequence, \<open>np.split\<close>, indexing a 0-d
  array, \<open>np.divmod\<close> on a Python integer outside the 64-bit range).
\<close>

datatype error = AssertionError | TypeError | ValueError | IndexError | OverflowError

text \<open>
  A numpy array: its shape and its elements in row-major (C) order. The rank is the
  length of the shape. A well-formed array holds as many elements as its shape says.
  Label arrays hold integers, the integer-valued class codes the class counter reads;
  the element type of the other arrays is left open, since no helper looks at their
  elements.
\<close>

record 'a ndarray =
  shape :: "nat list"
  data :: "'a list"

definition ndim :: "'a ndarray \<Rightarrow> nat" where
  "ndim a = length (shape a)"

definition wf_ndarray :: "'a ndarray \<Rightarrow> bool" where
  "wf_ndarray a \<longleftrightarrow> length (data a) = prod_list (shape a)"


text \<open>Sequencing of steps that may raise: the first exception ends the computation.\<close>

definition ebind :: "error + 'a \<Rightarrow> ('a \<Rightarrow> error + 'b) \<Rightarrow> error + 'b" where
  "ebind m f = (case m of Inl e \<Rightarrow> Inl e | Inr v \<Rightarrow> f v)"

section \<open>The numpy and Python primitives used by the helpers\<close>

text \<open>\<open>np.unique\<close>: the sorted distinct elements of the flattened array.\<close>

definition np_unique :: "int ndarray \<Rightarrow> int list" where
  "np_unique a = sort (remdups (data a))"

text \<open>Python's builtin \<open>min\<close> over a sequence; an empty sequence raises \<open>ValueError\<close>.\<close>

definition py_min :: "int list \<Rightarrow> error + int" where
  "py_min xs = (case xs of [] \<Rightarrow> Inl ValueError | y # ys \<Rightarrow> Inr (fold min ys y))"

text \<open>
  \<open>a[:, np.newaxis]\<close> and \<open>np.expand_dims(a, axis=1)\<close>: a new axis of size 1 at
  position 1, the elements untouched. Every call in the source is guarded by a test
  that the rank is 2 or 3, so the rank-0 failure of numpy is never reached.
\<close>

definition expand_dims1 :: "'a ndarray \<Rightarrow> 'a ndarray" where
  "expand_dims1 a = a\<lparr>shape := take 1 (shape a) @ 1 # drop 1 (shape a)\<rparr>"

text \<open>
  \<open>np.divmod\<close> on integers: floor division and the remainder with the sign of the
  divisor; numpy gives 0 for both when the divisor is 0 (with a warning, no exception).
\<close>

definition np_divmod :: "int \<Rightarrow> int \<Rightarrow> int \<times> int" where
  "np_divmod a b = (if b = 0 then (0, 0) else (a div b, a mod b))"

text \<open>
  \<open>np.divmod(count, batch_size)\<close> on a sample count and a Python integer: the integer is
  converted to \<open>int64\<close> first, which raises \<open>OverflowError\<close> when it does not fit. A
  sample count always fits.
\<close>

definition in_int64 :: "int \<Rightarrow> bool" where
  "in_int64 i \<longleftrightarrow> - (2 ^ 63) \<le> i \<and> i < 2 ^ 63"

definition np_divmod_py :: "int \<Rightarrow> int \<Rightarrow> error + int \<times> int" where
  "np_divmod_py a b = (if in_int64 b then Inr (np_divmod a b) else Inl OverflowError)"

text \<open>\<open>a.shape[0]\<close>: a 0-d array has an empty shape tuple.\<close>

definition shape0 :: "'a ndarray \<Rightarrow> error + nat" where
  "shape0 a = (case shape a of [] \<Rightarrow> Inl IndexError | n # _ \<Rightarrow> Inr n)"

text \<open>
  The rows \<open>st\<close> up to \<open>en\<close> (exclusive) along axis 0 of an array with \<open>N\<close> rows, trailing
  shape \<open>rest\<close> and elements \<open>xs\<close>; both bounds are clipped to \<open>N\<close> as Python slices are.
\<close>

definition basic_slice :: "nat \<Rightarrow> nat list \<Rightarrow> 'a list \<Rightarrow> nat \<Rightarrow> nat \<Rightarrow> 'a ndarray" where
  "basic_slice N rest xs st en =
     (let start = min st N; stop = min en N; len = stop - start; stride = prod_list rest
      in \<lparr>shape = len # rest, data = take (len * stride) (drop (start * stride) xs)\<rparr>)"

text \<open>A slice bound as Python normalises it: a negative bound counts from the end.\<close>

definition slice_bound :: "nat \<Rightarrow> int \<Rightarrow> nat" where
  "slice_bound N i = (if i < 0 then nat (max 0 (int N + i)) else nat i)"

text \<open>\<open>a[:stop]\<close>; indexing a 0-d array raises \<open>IndexError\<close>.\<close>

definition slice_to :: "'a ndarray \<Rightarrow> int \<Rightarrow> error + 'a ndarray" where
  "slice_to a stop =
     (case shape a of
        [] \<Rightarrow> Inl IndexError
      | N # rest \<Rightarrow> Inr (basic_slice N rest (data a) 0 (slice_bound N stop)))"

text \<open>
  The loop of \<open>np.array_split\<close> over the section sizes: section \<open>i\<close> is
  \<open>sary[st:end]\<close> with \<open>st\<close> and \<open>end\<close> consecutive partial sums of the sizes.
\<close>

fun sub_arys :: "nat \<Rightarrow> nat list \<Rightarrow> 'a list \<Rightarrow> nat \<Rightarrow> nat list \<Rightarrow> 'a ndarray list" where
  "sub_arys N rest xs st [] = []"
| "sub_arys N rest xs st (k # ks) =
     basic_slice N rest xs st (st + k) # sub_arys N rest xs (st + k) ks"

text \<open>
  \<open>np.array_split(ary, sections)\<close> along axis 0 for an integer number of sections:
  a number of sections below 1 raises \<open>ValueError\<close>; otherwise the first
  \<open>N mod sections\<close> sections get one more row than the others.
\<close>

definition array_split :: "'a ndarray \<Rightarrow> int \<Rightarrow> error + 'a ndarray list" where
  "array_split ary sections =
     (case shape ary of
        [] \<Rightarrow> Inl IndexError
      | N # rest \<Rightarrow>
          if sections \<le> 0 then Inl ValueError
          else
            (let Nsections = nat sections;
                 Neach_section = N div Nsections;
                 extras = N mod Nsections;
                 section_sizes = replicate extras (Neach_section + 1)
                                 @ replicate (Nsections - extras) Neach_section
             in Inr (sub_arys N rest (data ary) 0 section_sizes)))"

text \<open>
  \<open>np.split(ary, sections)\<close> along axis 0: \<open>ValueError\<close> unless the number of rows is
  a multiple of the number of sections, then \<open>np.array_split\<close>. The sections count
  comes from \<open>np.divmod\<close>, so the remainder test is numpy's and is 0 for 0 sections.
\<close>

definition np_split :: "'a ndarray \<Rightarrow> int \<Rightarrow> error + 'a ndarray list" where
  "np_split ary sections =
     (case shape ary of
        [] \<Rightarrow> Inl IndexError
      | N # rest \<Rightarrow>
          if snd (np_divmod (int N) sections) \<noteq> 0 then Inl ValueError
          else array_split ary sections)"

section \<open>The helpers\<close>

subsection \<open>\<open>num_classes_from_labels\<close>\<close>

text \<open>The loop \<open>for i, j in zip(uval, uval[1:])\<close> raising at the first increment that is not 1.\<close>

fun check_increments :: "(int \<times> int) list \<Rightarrow> error + unit" where
  "check_increments [] = Inr ()"
| "check_increments ((i, j) # ps) =
     (if j - i \<noteq> 1 then Inl AssertionError else check_increments ps)"

definition num_classes_from_labels :: "int ndarray \<Rightarrow> error + int" where
  "num_classes_from_labels labels =
     (let uval = np_unique labels in
      ebind (py_min uval) (\<lambda>m.
        if m \<noteq> 0 then Inl AssertionError
        else ebind (check_increments (zip uval (drop 1 uval))) (\<lambda>_.
          let num_classes = int (length uval);
              num_classes = (if num_classes = 2 then num_classes - 1 else num_classes)
          in Inr num_classes)))"

subsection \<open>\<open>check_image_dims\<close> and \<open>check_signal_dims\<close>\<close>

text \<open>
  One guarded insertion: the array, expanded when the test holds, and the warning
  issued in that case. Warnings are collected in the order the source issues them and
  never stop the computation.
\<close>

definition add_channel :: "bool \<Rightarrow> string \<Rightarrow> 'a ndarray \<Rightarrow> 'a ndarray \<times> string list" where
  "add_channel c msg a = (if c then (expand_dims1 a, [msg]) else (a, []))"

definition check_image_dims ::
  "'a ndarray \<Rightarrow> 'b ndarray \<Rightarrow> 'a ndarray \<Rightarrow> 'b ndarray \<Rightarrow> int
     \<Rightarrow> ('a ndarray \<times> 'b ndarray \<times> 'a ndarray \<times> 'b ndarray) \<times> string list" where
  "check_image_dims X_train y_train X_test y_test num_classes =
     (let (X_train', w1) = add_channel (ndim X_train = 3)
            ''Adding a channel dimension of 1 to training images'' X_train;
          (X_test', w2) = add_channel (ndim X_test = 3)
            ''Adding a channel dimension of 1 to test images'' X_test;
          (y_train', w3) = add_channel (num_classes = 1 \<and> ndim y_train = 3)
            ''Adding a channel dimension of 1 to training labels'' y_train;
          (y_test', w4) = add_channel (num_classes = 1 \<and> ndim y_test = 3)
            ''Adding a channel dimension of 1 to test labels'' y_test
      in ((X_train', y_train', X_test', y_test'), w1 @ w2 @ w3 @ w4))"

definition check_signal_dims ::
  "'a ndarray \<Rightarrow> 'b ndarray \<Rightarrow> 'a ndarray \<Rightarrow> 'b ndarray
     \<Rightarrow> ('a ndarray \<times> 'b ndarray \<times> 'a ndarray \<times> 'b ndarray) \<times> string list" where
  "check_signal_dims X_train y_train X_test y_test =
     (if ndim X_train > ndim y_train then
        (let (X_train', w1) = add_channel (ndim X_train = 3)
               ''Adding a channel dimension of 1 to training images'' X_train;
             (X_test', w2) = add_channel (ndim X_test = 3)
               ''Adding a channel dimension of 1 to test images'' X_test;
             (y_train', w3) = add_channel (ndim y_train = 2)
               ''Adding a channel dimension of 1 to training spectra'' y_train;
             (y_test', w4) = add_channel (ndim y_test = 2)
               ''Adding a channel dimension of 1 to test spectra'' y_test
         in ((X_train', y_train', X_test', y_test'), w1 @ w2 @ w3 @ w4))
      else if ndim X_train < ndim y_train then
        (let (X_train', w1) = add_channel (ndim X_train = 2)
               ''Adding a channel dimension of 1 to training images'' X_train;
             (X_test', w2) = add_channel (ndim X_test = 2)
               ''Adding a channel dimension of 1 to test images'' X_test;
             (y_train', w3) = add_channel (ndim y_train = 3)
               ''Adding a channel dimension of 1 to training spectra'' y_train;
             (y_test', w4) = add_channel (ndim y_test = 3)
               ''Adding a channel dimension of 1 to test spectra'' y_test
         in ((X_train', y_train', X_test', y_test'), w1 @ w2 @ w3 @ w4))
      else ((X_train, y_train, X_test, y_test), []))"

subsection \<open>\<open>ndarray2list\<close>\<close>

text \<open>
  The batch count of the train pair is computed first, then that of the test pair, each
  from the data array; then the four arrays are cut and split in the order train data,
  train labels, test data, test labels. The labels are cut and split with the batch
  count of their data array. The batch size is any Python integer. The batch counts
  are \<open>int64\<close> values and so is their product with the batch size; for a positive batch
  size the product is at most the sample count, and for any other batch size the batch
  count is at most 0, where \<open>np.split\<close> raises \<open>ValueError\<close> whatever the cut was, so the
  product is written on unbounded integers.
\<close>

definition ndarray2list ::
  "'a ndarray \<Rightarrow> 'b ndarray \<Rightarrow> 'a ndarray \<Rightarrow> 'b ndarray \<Rightarrow> int
     \<Rightarrow> error + ('a ndarray list \<times> 'b ndarray list \<times> 'a ndarray list \<times> 'b ndarray list)" where
  "ndarray2list X_train y_train X_test y_test batch_size =
     ebind (shape0 X_train) (\<lambda>n_train.
     ebind (np_divmod_py (int n_train) batch_size) (\<lambda>(n_train_batches, _).
     ebind (shape0 X_test) (\<lambda>n_test.
     ebind (np_divmod_py (int n_test) batch_size) (\<lambda>(n_test_batches, _).
       ebind (ebind (slice_to X_train (n_train_batches * batch_size))
                (\<lambda>a. np_split a n_train_batches)) (\<lambda>X_train'.
       ebind (ebind (slice_to y_train (n_train_batches * batch_size))
                (\<lambda>a. np_split a n_train_batches)) (\<lambda>y_train'.
       ebind (ebind (slice_to X_test (n_test_batches * batch_size))
                (\<lambda>a. np_split a n_test_batches)) (\<lambda>X_test'.
       ebind (ebind (slice_to y_test (n_test_batches * batch_size))
                (\<lambda>a. np_split a n_test_batches)) (\<lambda>y_test'.
         Inr (X_train', y_train', X_test', y_test')))))))))"

subsection \<open>\<open>preprocess_training_image_data\<close>\<close>


section \<open>Notions the claims are stated with\<close>

text \<open>
  The label rule of the class counter, on the set of distinct label values: the values
  start at zero when there is a least value and it is 0, and they are consecutive when
  every value but the least has its predecessor in the set.
\<close>

definition starts_at_zero :: "int set \<Rightarrow> bool" where
  "starts_at_zero S \<longleftrightarrow> S \<noteq> {} \<and> Min S = 0"

definition consecutive :: "int set \<Rightarrow> bool" where
  "consecutive S \<longleftrightarrow> (\<forall>x\<in>S. x = Min S \<or> x - 1 \<in> S)"

text \<open>
  \<open>channel_inserted a a'\<close>: \<open>a'\<close> is \<open>a\<close> with one axis of size 1 inserted at position 1
  and nothing else changed. \<open>expanded_iff c a a'\<close>: that insertion happened if \<open>c\<close> holds,
  and \<open>a'\<close> is \<open>a\<close> itself otherwise.
\<close>

definition channel_inserted :: "'a ndarray \<Rightarrow> 'a ndarray \<Rightarrow> bool" where
  "channel_inserted a a' \<longleftrightarrow>
     (case shape a of [] \<Rightarrow> False | n # rest \<Rightarrow> shape a' = n # 1 # rest) \<and> data a' = data a"

definition expanded_iff :: "bool \<Rightarrow> 'a ndarray \<Rightarrow> 'a ndarray \<Rightarrow> bool" where
  "expanded_iff c a a' \<longleftrightarrow> (if c then channel_inserted a a' else a' = a)"

text \<open>
  \<open>chunk a b i\<close>: the samples \<open>i * b\<close> up to \<open>(i + 1) * b\<close> (exclusive) of \<open>a\<close> along axis 0,
  as an array of \<open>b\<close> samples; \<open>chunks a b n\<close>: the first \<open>n\<close> such chunks, in order.
\<close>

definition chunk :: "'a ndarray \<Rightarrow> nat \<Rightarrow> nat \<Rightarrow> 'a ndarray" where
  "chunk a b i =
     \<lparr>shape = b # tl (shape a),
      data = take (b * prod_list (tl (shape a))) (drop (i * b * prod_list (tl (shape a))) (data a))\<rparr>"

definition chunks :: "'a ndarray \<Rightarrow> nat \<Rightarrow> nat \<Rightarrow> 'a ndarray list" where
  "chunks a b n = map (chunk a b) [0..<n]"

text \<open>
  \<open>np.concatenate(arys, axis=0)\<close>: the arrays one after the other along axis 0. numpy
  raises \<open>ValueError\<close> for an empty list, for 0-d arrays and for arrays whose trailing
  shapes differ.
\<close>

definition np_concatenate :: "'a ndarray list \<Rightarrow> error + 'a ndarray" where
  "np_concatenate arys =
     (case arys of
        [] \<Rightarrow> Inl ValueError
      | a # _ \<Rightarrow>
          (case shape a of
             [] \<Rightarrow> Inl ValueError
           | _ # rest \<Rightarrow>
               if list_all (\<lambda>b. shape b \<noteq> [] \<and> tl (shape b) = rest) arys
               then Inr \<lparr>shape = sum_list (map (\<lambda>b. hd (shape b)) arys) # rest,
                         data = concat (map data arys)\<rparr>
               else Inl ValueError))"

text \<open>
  \<open>exact_batches a b cs\<close>: \<open>cs\<close> is the sequence of full batches of \<open>b\<close> samples of \<open>a\<close>.
  With \<open>n\<close> the sample count of \<open>a\<close>, there are \<open>n div b\<close> chunks, chunk \<open>i\<close> holds the
  samples \<open>i * b\<close> up to \<open>(i + 1) * b\<close>, every chunk has exactly \<open>b\<close> samples of the
  trailing shape of \<open>a\<close> (and the elements for them, when \<open>a\<close> is well formed), and fewer
  than \<open>b\<close> trailing samples are left out.
\<close>

definition exact_batches :: "'a ndarray \<Rightarrow> nat \<Rightarrow> 'a ndarray list \<Rightarrow> bool" where
  "exact_batches a b cs \<longleftrightarrow>
     (case shape a of
        [] \<Rightarrow> False
      | n # rest \<Rightarrow>
          cs = chunks a b (n div b) \<and> length cs = n div b
          \<and> list_all (\<lambda>c. shape c = b # rest) cs
          \<and> (wf_ndarray a \<longrightarrow> list_all wf_ndarray cs)
          \<and> n - n div b * b < b)"

section \<open>The class counter\<close>

subsection \<open>Facts about the primitives\<close>

lemma fold_min_sorted: "sorted (y # ys) \<Longrightarrow> fold min ys y = (y::int)"
  by (induction ys arbitrary: y) (auto simp: min_def)

lemma py_min_sorted: "sorted xs \<Longrightarrow> xs \<noteq> [] \<Longrightarrow> py_min xs = Inr (hd xs)"
  by (cases xs) (simp_all add: py_min_def fold_min_sorted del: sorted_wrt.simps)

lemma np_unique_props:
  "sorted (np_unique a)" "distinct (np_unique a)" "set (np_unique a) = set (data a)"
  by (simp_all add: np_unique_def)

lemma np_unique_range:
  assumes "set (data a) = {0..<k}"
  shows "np_unique a = [0..k - 1]"
proof -
  have "set [0..k - 1] = {0..<k}" by auto
  then show ?thesis using assms
    by (intro sorted_distinct_set_unique) (simp_all add: np_unique_props)
qed

text \<open>The increment loop accepts every run of consecutive integers.\<close>

lemma check_increments_upto: "check_increments (zip [i..j] (drop 1 [i..j])) = Inr ()"
proof (induction i j rule: upto.induct)
  case (1 i j)
  show ?case
  proof (cases "i + 1 \<le> j")
    case True
    have a: "[i..j] = i # [i + 1..j]" using True by (simp add: upto_rec1 [of i j])
    obtain M where b: "[i + 1..j] = (i + 1) # M"
      using True by (simp add: upto_rec1 [of "i + 1" j])
    have "i \<le> j" using True by simp
    from 1 [OF this] show ?thesis by (simp add: a b)
  next
    case False
    then show ?thesis by (cases "i \<le> j") (simp_all add: upto_rec1 [of i j])
  qed
qed

text \<open>Conversely, a non-empty sequence the loop accepts is a run of consecutive integers.\<close>

lemma check_increments_consecutive:
  "check_increments (zip xs (drop 1 xs)) = Inr () \<Longrightarrow> xs \<noteq> [] \<Longrightarrow>
     xs = [hd xs .. hd xs + int (length xs) - 1]"
proof (induction xs)
  case Nil
  then show ?case by simp
next
  case (Cons x xs)
  show ?case
  proof (cases xs)
    case Nil
    then show ?thesis by simp
  next
    case (Cons y ys)
    with Cons.prems have y: "y = x + 1"
      and rest: "check_increments (zip xs (drop 1 xs)) = Inr ()"
      by (auto split: if_splits)
    from Cons.IH [OF rest] Cons have "xs = [y .. y + int (length xs) - 1]" by simp
    then have "x # xs = x # [x + 1 .. x + int (length xs)]" using y by simp
    also have "\<dots> = [x .. x + int (length xs)]" by (simp add: upto_rec1 [of x])
    finally have eq: "[x .. x + int (length xs)] = x # xs" by simp
    have "x # xs = [x .. x + int (length (x # xs)) - 1]" using eq by simp
    then show ?thesis by (simp only: list.sel)
  qed
qed

lemma check_increments_error: "check_increments ps = Inl e \<Longrightarrow> e = AssertionError"
  by (induction ps rule: check_increments.induct) (auto split: if_splits)

text \<open>What a successful run says about the distinct values and the result.\<close>

lemma num_classes_success:
  assumes "num_classes_from_labels labels = Inr n"
  shows "np_unique labels = [0 .. int (length (np_unique labels)) - 1]"
    and "np_unique labels \<noteq> []"
    and "n = (if int (length (np_unique labels)) = 2 then 1 else int (length (np_unique labels)))"
proof -
  let ?u = "np_unique labels"
  show ne: "?u \<noteq> []" using assms
    by (auto simp: num_classes_from_labels_def ebind_def py_min_def)
  have "py_min ?u = Inr (hd ?u)" using ne by (simp add: py_min_sorted np_unique_props)
  with assms have h0: "hd ?u = 0" and inc: "check_increments (zip ?u (drop 1 ?u)) = Inr ()"
    and n: "n = (if int (length ?u) = 2 then 1 else int (length ?u))"
    by (auto simp: num_classes_from_labels_def ebind_def Let_def split: if_splits sum.splits)
  show "n = (if int (length ?u) = 2 then 1 else int (length ?u))" by (rule n)
  from check_increments_consecutive [OF inc ne] h0
  show "?u = [0 .. int (length ?u) - 1]" by simp
qed

text \<open>
  A finite set of integers is \<open>{0, ..., k-1}\<close> for some \<open>k \<ge> 1\<close> exactly when it starts at
  zero and is consecutive.
\<close>

lemma range_iff_zero_consecutive:
  assumes "finite S"
  shows "(\<exists>k. 1 \<le> k \<and> S = {0..<k}) \<longleftrightarrow> starts_at_zero S \<and> consecutive S"
proof
  assume "\<exists>k. 1 \<le> k \<and> S = {0..<k}"
  then obtain k where k: "1 \<le> k" and S: "S = {0..<k}" by blast
  have m: "Min S = 0" unfolding S using k by (intro Min_eqI) auto
  show "starts_at_zero S \<and> consecutive S"
    unfolding starts_at_zero_def consecutive_def m using k by (auto simp: S)
next
  assume "starts_at_zero S \<and> consecutive S"
  then have ne: "S \<noteq> {}" and m: "Min S = 0" and c: "\<And>x. x \<in> S \<Longrightarrow> x \<noteq> 0 \<Longrightarrow> x - 1 \<in> S"
    by (auto simp: starts_at_zero_def consecutive_def)
  define M where "M = Max S"
  have M: "M \<in> S" unfolding M_def using assms ne by (rule Max_in)
  have down: "0 \<le> x \<longrightarrow> x \<in> S" if "x \<le> M" for x
    using that
  proof (induction x rule: int_le_induct)
    case base
    show ?case using M by simp
  next
    case (step i)
    show ?case
    proof
      assume "0 \<le> i - 1"
      then have "i \<in> S" "i \<noteq> 0" using step.IH by simp_all
      then show "i - 1 \<in> S" by (rule c)
    qed
  qed
  have "S = {0..<M + 1}"
  proof (intro set_eqI iffI)
    fix x assume x: "x \<in> S"
    then have "Min S \<le> x" "x \<le> Max S" using assms by simp_all
    then show "x \<in> {0..<M + 1}" by (simp add: m M_def)
  next
    fix x assume "x \<in> {0..<M + 1}"
    then show "x \<in> S" using down [of x] by simp
  qed
  moreover have "0 \<le> M" using M assms m Min_le [of S M] by simp
  ultimately show "\<exists>k. 1 \<le> k \<and> S = {0..<k}" by (intro exI [of _ "M + 1"]) simp
qed

subsection \<open>Claims about \<open>num_classes_from_labels\<close>\<close>

text \<open>
  C2. For every label array whose set of distinct values is exactly \<open>{0, ..., k-1}\<close> for
  some \<open>k \<ge> 1\<close>, \<open>num_classes_from_labels\<close> succeeds and returns \<open>k\<close> when \<open>k \<noteq> 2\<close>
  and \<open>1\<close> when \<open>k = 2\<close>.
\<close>

theorem num_classes_from_labels_range:
  assumes "1 \<le> k" and "set (data labels) = {0..<k}"
  shows "num_classes_from_labels labels = Inr (if k = 2 then 1 else k)"
proof -
  have u: "np_unique labels = [0..k - 1]" using assms(2) by (rule np_unique_range)
  have ne: "[0..k - 1] \<noteq> []" using assms(1) by simp
  have hd0: "hd [0..k - 1] = 0" using assms(1) by (simp add: upto_rec1 [of 0])
  have m: "py_min [0..k - 1] = Inr 0" using py_min_sorted [OF _ ne] hd0 by simp
  have len: "int (length [0..k - 1]) = k" using assms(1) by simp
  show ?thesis
    unfolding num_classes_from_labels_def Let_def u
    by (simp only: m check_increments_upto ebind_def len sum.case) simp
qed

theorem num_classes_from_labels_range_witness:
  "(1::int) \<le> 3 \<and> set (data \<lparr>shape = [2, 2], data = [0, 2, 1, 0 :: int]\<rparr>) = {0..<3}
     \<and> num_classes_from_labels \<lparr>shape = [2, 2], data = [0, 2, 1, 0]\<rparr> = Inr 3
   \<and> (1::int) \<le> 2 \<and> set (data \<lparr>shape = [2, 2], data = [0, 1, 1, 0 :: int]\<rparr>) = {0..<2}
     \<and> num_classes_from_labels \<lparr>shape = [2, 2], data = [0, 1, 1, 0]\<rparr> = Inr 1"
proof -
  have s3: "set (data \<lparr>shape = [2, 2], data = [0, 2, 1, 0 :: int]\<rparr>) = {0..<3}" by auto
  have s2: "set (data \<lparr>shape = [2, 2], data = [0, 1, 1, 0 :: int]\<rparr>) = {0..<2}" by auto
  show ?thesis
    using s3 s2 num_classes_from_labels_range [OF _ s3] num_classes_from_labels_range [OF _ s2]
    by simp
qed

text \<open>Outside the ranges \<open>{0, ..., k-1}\<close> every non-empty label array is rejected.\<close>

lemma num_classes_from_labels_not_range:
  assumes "data labels \<noteq> []"
    and "\<not> (\<exists>k. 1 \<le> k \<and> set (data labels) = {0..<k})"
  shows "num_classes_from_labels labels = Inl AssertionError"
proof (cases "num_classes_from_labels labels")
  case (Inr n)
  let ?u = "np_unique labels"
  from num_classes_success(1,2) [OF Inr]
  have u: "?u = [0 .. int (length ?u) - 1]" and ne: "?u \<noteq> []" .
  have "set (data labels) = set ?u" by (simp add: np_unique_props)
  also have "\<dots> = set [0 .. int (length ?u) - 1]" using u by simp
  also have "\<dots> = {0..<int (length ?u)}" by auto
  finally have "set (data labels) = {0..<int (length ?u)}" .
  moreover have "1 \<le> int (length ?u)" using ne by (cases ?u) simp_all
  ultimately show ?thesis using assms(2) by blast
next
  case (Inl e)
  have ne: "np_unique labels \<noteq> []" using assms(1) np_unique_props(3) [of labels] by auto
  then obtain y ys where "np_unique labels = y # ys" by (cases "np_unique labels") auto
  then show ?thesis using Inl
    by (auto simp: num_classes_from_labels_def ebind_def py_min_def Let_def
             split: if_splits sum.splits dest: check_increments_error)
qed

text \<open>
  C3, as stated, covers every label array whose distinct values do not have 0 as their
  minimum. An array without elements is one: it has no distinct values at all. There
  \<open>min\<close> is called on an empty sequence and raises \<open>ValueError\<close>, before either
  \<open>AssertionError\<close> can be raised.
\<close>

theorem num_classes_from_labels_empty_counterexample:
  "\<not> starts_at_zero (set (data \<lparr>shape = [0, 2], data = []\<rparr>))
   \<and> num_classes_from_labels \<lparr>shape = [0, 2], data = []\<rparr> = Inl ValueError
   \<and> num_classes_from_labels \<lparr>shape = [0, 2], data = []\<rparr> \<noteq> Inl AssertionError"
  by (simp add: starts_at_zero_def num_classes_from_labels_def np_unique_def py_min_def ebind_def)

text \<open>
  C3 (amended). For every label array with at least one element whose distinct values
  do not have 0 as their minimum, or are not consecutive integers with step 1,
  \<open>num_classes_from_labels\<close> fails with \<open>AssertionError\<close> and produces no result.
\<close>

theorem num_classes_from_labels_invalid:
  assumes "data labels \<noteq> []"
    and "\<not> starts_at_zero (set (data labels)) \<or> \<not> consecutive (set (data labels))"
  shows "num_classes_from_labels labels = Inl AssertionError"
proof -
  have "\<not> (\<exists>k. 1 \<le> k \<and> set (data labels) = {0..<k})"
    using assms(2) range_iff_zero_consecutive [of "set (data labels)"] by auto
  with assms(1) show ?thesis by (rule num_classes_from_labels_not_range)
qed

theorem num_classes_from_labels_invalid_witness:
  "data \<lparr>shape = [3], data = [0, 2, 2 :: int]\<rparr> \<noteq> []
   \<and> \<not> consecutive (set (data \<lparr>shape = [3], data = [0, 2, 2 :: int]\<rparr>))
   \<and> num_classes_from_labels \<lparr>shape = [3], data = [0, 2, 2]\<rparr> = Inl AssertionError
   \<and> data \<lparr>shape = [3], data = [1, 2, 3 :: int]\<rparr> \<noteq> []
   \<and> \<not> starts_at_zero (set (data \<lparr>shape = [3], data = [1, 2, 3 :: int]\<rparr>))
   \<and> num_classes_from_labels \<lparr>shape = [3], data = [1, 2, 3]\<rparr> = Inl AssertionError"
proof -
  have gap: "\<not> consecutive (set (data \<lparr>shape = [3], data = [0, 2, 2 :: int]\<rparr>))"
    by (simp add: consecutive_def)
  have off: "\<not> starts_at_zero (set (data \<lparr>shape = [3], data = [1, 2, 3 :: int]\<rparr>))"
    by (simp add: starts_at_zero_def)
  have "num_classes_from_labels \<lparr>shape = [3], data = [0, 2, 2]\<rparr> = Inl AssertionError"
    using gap by (intro num_classes_from_labels_invalid) simp_all
  moreover have "num_classes_from_labels \<lparr>shape = [3], data = [1, 2, 3]\<rparr> = Inl AssertionError"
    using off by (intro num_classes_from_labels_invalid) simp_all
  ultimately show ?thesis using gap off by simp
qed

text \<open>
  C10. Whenever \<open>num_classes_from_labels\<close> succeeds, the class count it returns is a
  positive integer different from 2: two distinct label values give 1.
\<close>

theorem num_classes_from_labels_never_two:
  "num_classes_from_labels labels = Inr n \<Longrightarrow> 1 \<le> n \<and> n \<noteq> 2"
  using num_classes_success(2,3) [of labels n]
  by (cases "np_unique labels") (auto split: if_splits)

theorem num_classes_from_labels_never_two_witness:
  "num_classes_from_labels \<lparr>shape = [4], data = [1, 0, 0, 1]\<rparr> = Inr 1
   \<and> (1::int) \<le> 1 \<and> (1::int) \<noteq> 2"
proof -
  have r: "num_classes_from_labels \<lparr>shape = [4], data = [1, 0, 0, 1]\<rparr> = Inr 1"
    by (simp add: num_classes_from_labels_def np_unique_def py_min_def ebind_def)
  show ?thesis using r num_classes_from_labels_never_two [OF r] by simp
qed

section \<open>The rank normalizers\<close>

subsection \<open>Facts about the channel insertion\<close>

lemma ndim_expand_dims1: "ndim (expand_dims1 a) = Suc (ndim a)"
  by (cases "shape a") (simp_all add: ndim_def expand_dims1_def)

lemma channel_inserted_expand: "shape a \<noteq> [] \<Longrightarrow> channel_inserted a (expand_dims1 a)"
  by (cases "shape a") (simp_all add: channel_inserted_def expand_dims1_def)

lemma not_channel_inserted_self: "\<not> channel_inserted a a"
  by (cases "shape a") (simp_all add: channel_inserted_def)

lemma expanded_iff_add_channel:
  "c \<longrightarrow> shape a \<noteq> [] \<Longrightarrow> expanded_iff c a (fst (add_channel c msg a))"
  by (simp add: expanded_iff_def add_channel_def channel_inserted_expand)

lemma expanded_iff_cases:
  "expanded_iff c a a' \<Longrightarrow> (channel_inserted a a' \<longleftrightarrow> c)"
  by (auto simp: expanded_iff_def not_channel_inserted_self split: if_splits)

subsection \<open>Claims about \<open>check_image_dims\<close> and \<open>check_signal_dims\<close>\<close>

text \<open>
  C4. For every call of \<open>check_image_dims\<close>: a data array (train or test) gets a
  singleton axis at position 1 exactly when its rank is 3, whatever the class count,
  and then has rank 4; a label array gets one if and only if the class count is 1 and
  its rank is 3; with a class count above 1 the label arrays are returned as they came.
\<close>

theorem check_image_dims_ranks:
  assumes "fst (check_image_dims X_train y_train X_test y_test num_classes)
             = (X_train', y_train', X_test', y_test')"
  shows "expanded_iff (ndim X_train = 3) X_train X_train'
       \<and> expanded_iff (ndim X_test = 3) X_test X_test'
       \<and> expanded_iff (num_classes = 1 \<and> ndim y_train = 3) y_train y_train'
       \<and> expanded_iff (num_classes = 1 \<and> ndim y_test = 3) y_test y_test'
       \<and> (ndim X_train = 3 \<longrightarrow> ndim X_train' = 4)
       \<and> (ndim X_test = 3 \<longrightarrow> ndim X_test' = 4)
       \<and> (num_classes = 1 \<and> ndim y_train = 3 \<longrightarrow> ndim y_train' = 4)
       \<and> (num_classes = 1 \<and> ndim y_test = 3 \<longrightarrow> ndim y_test' = 4)
       \<and> (channel_inserted y_train y_train' \<longleftrightarrow> num_classes = 1 \<and> ndim y_train = 3)
       \<and> (channel_inserted y_test y_test' \<longleftrightarrow> num_classes = 1 \<and> ndim y_test = 3)
       \<and> (1 < num_classes \<longrightarrow> y_train' = y_train \<and> y_test' = y_test)"
proof -
  have X: "X_train' = fst (add_channel (ndim X_train = 3)
            ''Adding a channel dimension of 1 to training images'' X_train)"
   and Xt: "X_test' = fst (add_channel (ndim X_test = 3)
            ''Adding a channel dimension of 1 to test images'' X_test)"
   and y: "y_train' = fst (add_channel (num_classes = 1 \<and> ndim y_train = 3)
            ''Adding a channel dimension of 1 to training labels'' y_train)"
   and yt: "y_test' = fst (add_channel (num_classes = 1 \<and> ndim y_test = 3)
            ''Adding a channel dimension of 1 to test labels'' y_test)"
    using assms by (simp_all add: check_image_dims_def split_beta Let_def)
  have e1: "expanded_iff (ndim X_train = 3) X_train X_train'"
    unfolding X by (rule expanded_iff_add_channel) (auto simp: ndim_def)
  have e2: "expanded_iff (ndim X_test = 3) X_test X_test'"
    unfolding Xt by (rule expanded_iff_add_channel) (auto simp: ndim_def)
  have e3: "expanded_iff (num_classes = 1 \<and> ndim y_train = 3) y_train y_train'"
    unfolding y by (rule expanded_iff_add_channel) (auto simp: ndim_def)
  have e4: "expanded_iff (num_classes = 1 \<and> ndim y_test = 3) y_test y_test'"
    unfolding yt by (rule expanded_iff_add_channel) (auto simp: ndim_def)
  have r1: "ndim X_train = 3 \<longrightarrow> ndim X_train' = 4"
    and r2: "ndim X_test = 3 \<longrightarrow> ndim X_test' = 4"
    and r3: "num_classes = 1 \<and> ndim y_train = 3 \<longrightarrow> ndim y_train' = 4"
    and r4: "num_classes = 1 \<and> ndim y_test = 3 \<longrightarrow> ndim y_test' = 4"
    by (simp_all add: X Xt y yt add_channel_def ndim_expand_dims1)
  have r5: "1 < num_classes \<longrightarrow> y_train' = y_train \<and> y_test' = y_test"
    by (simp add: y yt add_channel_def)
  note i3 = expanded_iff_cases [OF e3] and i4 = expanded_iff_cases [OF e4]
  from e1 e2 e3 e4 r1 r2 r3 r4 i3 i4 r5 show ?thesis by blast
qed

theorem check_image_dims_ranks_witness:
  "fst (check_image_dims \<lparr>shape = [2, 1, 2], data = [1, 2, 3, 4 :: int]\<rparr>
          \<lparr>shape = [2, 1, 2], data = [0, 1, 1, 0 :: int]\<rparr>
          \<lparr>shape = [1, 2], data = [5, 6]\<rparr> \<lparr>shape = [1, 1, 2], data = [0, 1]\<rparr> 1)
     = (\<lparr>shape = [2, 1, 1, 2], data = [1, 2, 3, 4]\<rparr>, \<lparr>shape = [2, 1, 1, 2], data = [0, 1, 1, 0]\<rparr>,
        \<lparr>shape = [1, 2], data = [5, 6]\<rparr>, \<lparr>shape = [1, 1, 1, 2], data = [0, 1]\<rparr>)
   \<and> channel_inserted \<lparr>shape = [2, 1, 2], data = [1, 2, 3, 4 :: int]\<rparr>
         \<lparr>shape = [2, 1, 1, 2], data = [1, 2, 3, 4]\<rparr>
   \<and> channel_inserted \<lparr>shape = [2, 1, 2], data = [0, 1, 1, 0 :: int]\<rparr>
         \<lparr>shape = [2, 1, 1, 2], data = [0, 1, 1, 0]\<rparr>
   \<and> ndim \<lparr>shape = [2, 1, 1, 2], data = [1, 2, 3, 4 :: int]\<rparr> = 4
   \<and> fst (check_image_dims \<lparr>shape = [2, 1, 2], data = [1, 2, 3, 4 :: int]\<rparr>
          \<lparr>shape = [2, 1, 2], data = [0, 1, 2, 3 :: int]\<rparr>
          \<lparr>shape = [1, 1, 2], data = [5, 6]\<rparr> \<lparr>shape = [1, 1, 2], data = [0, 1]\<rparr> 4)
     = (\<lparr>shape = [2, 1, 1, 2], data = [1, 2, 3, 4]\<rparr>, \<lparr>shape = [2, 1, 2], data = [0, 1, 2, 3]\<rparr>,
        \<lparr>shape = [1, 1, 1, 2], data = [5, 6]\<rparr>, \<lparr>shape = [1, 1, 2], data = [0, 1]\<rparr>)"
proof -
  have h1: "fst (check_image_dims \<lparr>shape = [2, 1, 2], data = [1, 2, 3, 4 :: int]\<rparr>
          \<lparr>shape = [2, 1, 2], data = [0, 1, 1, 0 :: int]\<rparr>
          \<lparr>shape = [1, 2], data = [5, 6]\<rparr> \<lparr>shape = [1, 1, 2], data = [0, 1]\<rparr> 1)
     = (\<lparr>shape = [2, 1, 1, 2], data = [1, 2, 3, 4]\<rparr>, \<lparr>shape = [2, 1, 1, 2], data = [0, 1, 1, 0]\<rparr>,
        \<lparr>shape = [1, 2], data = [5, 6]\<rparr>, \<lparr>shape = [1, 1, 1, 2], data = [0, 1]\<rparr>)"
    by (simp add: check_image_dims_def add_channel_def expand_dims1_def ndim_def)
  have h2: "fst (check_image_dims \<lparr>shape = [2, 1, 2], data = [1, 2, 3, 4 :: int]\<rparr>
          \<lparr>shape = [2, 1, 2], data = [0, 1, 2, 3 :: int]\<rparr>
          \<lparr>shape = [1, 1, 2], data = [5, 6]\<rparr> \<lparr>shape = [1, 1, 2], data = [0, 1]\<rparr> 4)
     = (\<lparr>shape = [2, 1, 1, 2], data = [1, 2, 3, 4]\<rparr>, \<lparr>shape = [2, 1, 2], data = [0, 1, 2, 3]\<rparr>,
        \<lparr>shape = [1, 1, 1, 2], data = [5, 6]\<rparr>, \<lparr>shape = [1, 1, 2], data = [0, 1]\<rparr>)"
    by (simp add: check_image_dims_def add_channel_def expand_dims1_def ndim_def)
  show ?thesis
    using h1 h2 check_image_dims_ranks [OF h1] check_image_dims_ranks [OF h2]
    by (simp add: expanded_iff_def ndim_def)
qed

text \<open>
  C5. For every call of \<open>check_signal_dims\<close> the branch is decided by comparing the rank
  of the training data with the rank of the training labels only. When the data rank is
  larger, each data array of rank 3 and each label array of rank 2 gets a singleton axis
  at position 1; when it is smaller, each data array of rank 2 and each label array of
  rank 3 gets one; every other array is returned as it came, and so are all four arrays
  when the two training ranks are equal. The test arrays follow the comparison of the
  training ranks, each with its own rank as the trigger.
\<close>

theorem check_signal_dims_ranks:
  assumes "fst (check_signal_dims X_train y_train X_test y_test)
             = (X_train', y_train', X_test', y_test')"
  shows "(ndim X_train > ndim y_train \<longrightarrow>
            expanded_iff (ndim X_train = 3) X_train X_train'
          \<and> expanded_iff (ndim X_test = 3) X_test X_test'
          \<and> expanded_iff (ndim y_train = 2) y_train y_train'
          \<and> expanded_iff (ndim y_test = 2) y_test y_test')
       \<and> (ndim X_train < ndim y_train \<longrightarrow>
            expanded_iff (ndim X_train = 2) X_train X_train'
          \<and> expanded_iff (ndim X_test = 2) X_test X_test'
          \<and> expanded_iff (ndim y_train = 3) y_train y_train'
          \<and> expanded_iff (ndim y_test = 3) y_test y_test')
       \<and> (ndim X_train = ndim y_train \<longrightarrow>
            X_train' = X_train \<and> y_train' = y_train \<and> X_test' = X_test \<and> y_test' = y_test)"
proof (intro conjI impI)
  assume gt: "ndim y_train < ndim X_train"
  then have X: "X_train' = fst (add_channel (ndim X_train = 3)
            ''Adding a channel dimension of 1 to training images'' X_train)"
   and Xt: "X_test' = fst (add_channel (ndim X_test = 3)
            ''Adding a channel dimension of 1 to test images'' X_test)"
   and y: "y_train' = fst (add_channel (ndim y_train = 2)
            ''Adding a channel dimension of 1 to training spectra'' y_train)"
   and yt: "y_test' = fst (add_channel (ndim y_test = 2)
            ''Adding a channel dimension of 1 to test spectra'' y_test)"
    using assms by (simp_all add: check_signal_dims_def split_beta Let_def)
  show "expanded_iff (ndim X_train = 3) X_train X_train'"
    unfolding X by (rule expanded_iff_add_channel) (auto simp: ndim_def)
  show "expanded_iff (ndim X_test = 3) X_test X_test'"
    unfolding Xt by (rule expanded_iff_add_channel) (auto simp: ndim_def)
  show "expanded_iff (ndim y_train = 2) y_train y_train'"
    unfolding y by (rule expanded_iff_add_channel) (auto simp: ndim_def)
  show "expanded_iff (ndim y_test = 2) y_test y_test'"
    unfolding yt by (rule expanded_iff_add_channel) (auto simp: ndim_def)
next
  assume lt: "ndim X_train < ndim y_train"
  then have X: "X_train' = fst (add_channel (ndim X_train = 2)
            ''Adding a channel dimension of 1 to training images'' X_train)"
   and Xt: "X_test' = fst (add_channel (ndim X_test = 2)
            ''Adding a channel dimension of 1 to test images'' X_test)"
   and y: "y_train' = fst (add_channel (ndim y_train = 3)
            ''Adding a channel dimension of 1 to training spectra'' y_train)"
   and yt: "y_test' = fst (add_channel (ndim y_test = 3)
            ''Adding a channel dimension of 1 to test spectra'' y_test)"
    using assms by (simp_all add: check_signal_dims_def split_beta Let_def)
  show "expanded_iff (ndim X_train = 2) X_train X_train'"
    unfolding X by (rule expanded_iff_add_channel) (auto simp: ndim_def)
  show "expanded_iff (ndim X_test = 2) X_test X_test'"
    unfolding Xt by (rule expanded_iff_add_channel) (auto simp: ndim_def)
  show "expanded_iff (ndim y_train = 3) y_train y_train'"
    unfolding y by (rule expanded_iff_add_channel) (auto simp: ndim_def)
  show "expanded_iff (ndim y_test = 3) y_test y_test'"
    unfolding yt by (rule expanded_iff_add_channel) (auto simp: ndim_def)
next
  assume "ndim X_train = ndim y_train"
  then have "(X_train', y_train', X_test', y_test') = (X_train, y_train, X_test, y_test)"
    using assms by (simp add: check_signal_dims_def)
  then show "X_train' = X_train" "y_train' = y_train" "X_test' = X_test" "y_test' = y_test"
    by simp_all
qed

theorem check_signal_dims_ranks_witness:
  "fst (check_signal_dims \<lparr>shape = [2, 1, 2], data = [1, 2, 3, 4 :: int]\<rparr>
          \<lparr>shape = [2, 3], data = [0, 1, 2, 3, 4, 5 :: int]\<rparr>
          \<lparr>shape = [1, 1, 1, 2], data = [5, 6]\<rparr> \<lparr>shape = [1, 3], data = [7, 8, 9]\<rparr>)
     = (\<lparr>shape = [2, 1, 1, 2], data = [1, 2, 3, 4]\<rparr>, \<lparr>shape = [2, 1, 3], data = [0, 1, 2, 3, 4, 5]\<rparr>,
        \<lparr>shape = [1, 1, 1, 2], data = [5, 6]\<rparr>, \<lparr>shape = [1, 1, 3], data = [7, 8, 9]\<rparr>)
   \<and> channel_inserted \<lparr>shape = [2, 1, 2], data = [1, 2, 3, 4 :: int]\<rparr>
         \<lparr>shape = [2, 1, 1, 2], data = [1, 2, 3, 4]\<rparr>
   \<and> channel_inserted \<lparr>shape = [2, 3], data = [0, 1, 2, 3, 4, 5 :: int]\<rparr>
         \<lparr>shape = [2, 1, 3], data = [0, 1, 2, 3, 4, 5]\<rparr>
   \<and> channel_inserted \<lparr>shape = [1, 3], data = [7, 8, 9 :: int]\<rparr>
         \<lparr>shape = [1, 1, 3], data = [7, 8, 9]\<rparr>
   \<and> fst (check_signal_dims \<lparr>shape = [2, 2], data = [1, 2, 3, 4 :: int]\<rparr>
          \<lparr>shape = [2, 1, 3], data = [0, 1, 2, 3, 4, 5 :: int]\<rparr>
          \<lparr>shape = [1, 2], data = [5, 6]\<rparr> \<lparr>shape = [1, 3], data = [7, 8, 9]\<rparr>)
     = (\<lparr>shape = [2, 1, 2], data = [1, 2, 3, 4]\<rparr>, \<lparr>shape = [2, 1, 1, 3], data = [0, 1, 2, 3, 4, 5]\<rparr>,
        \<lparr>shape = [1, 1, 2], data = [5, 6]\<rparr>, \<lparr>shape = [1, 3], data = [7, 8, 9]\<rparr>)
   \<and> fst (check_signal_dims \<lparr>shape = [2, 1, 2], data = [1, 2, 3, 4 :: int]\<rparr>
          \<lparr>shape = [2, 1, 3], data = [0, 1, 2, 3, 4, 5 :: int]\<rparr>
          \<lparr>shape = [1, 1, 2], data = [5, 6]\<rparr> \<lparr>shape = [1, 3], data = [7, 8, 9]\<rparr>)
     = (\<lparr>shape = [2, 1, 2], data = [1, 2, 3, 4]\<rparr>, \<lparr>shape = [2, 1, 3], data = [0, 1, 2, 3, 4, 5]\<rparr>,
        \<lparr>shape = [1, 1, 2], data = [5, 6]\<rparr>, \<lparr>shape = [1, 3], data = [7, 8, 9]\<rparr>)"
proof -
  have h1: "fst (check_signal_dims \<lparr>shape = [2, 1, 2], data = [1, 2, 3, 4 :: int]\<rparr>
          \<lparr>shape = [2, 3], data = [0, 1, 2, 3, 4, 5 :: int]\<rparr>
          \<lparr>shape = [1, 1, 1, 2], data = [5, 6]\<rparr> \<lparr>shape = [1, 3], data = [7, 8, 9]\<rparr>)
     = (\<lparr>shape = [2, 1, 1, 2], data = [1, 2, 3, 4]\<rparr>, \<lparr>shape = [2, 1, 3], data = [0, 1, 2, 3, 4, 5]\<rparr>,
        \<lparr>shape = [1, 1, 1, 2], data = [5, 6]\<rparr>, \<lparr>shape = [1, 1, 3], data = [7, 8, 9]\<rparr>)"
    by (simp add: check_signal_dims_def add_channel_def expand_dims1_def ndim_def)
  have h2: "fst (check_signal_dims \<lparr>shape = [2, 2], data = [1, 2, 3, 4 :: int]\<rparr>
          \<lparr>shape = [2, 1, 3], data = [0, 1, 2, 3, 4, 5 :: int]\<rparr>
          \<lparr>shape = [1, 2], data = [5, 6]\<rparr> \<lparr>shape = [1, 3], data = [7, 8, 9]\<rparr>)
     = (\<lparr>shape = [2, 1, 2], data = [1, 2, 3, 4]\<rparr>, \<lparr>shape = [2, 1, 1, 3], data = [0, 1, 2, 3, 4, 5]\<rparr>,
        \<lparr>shape = [1, 1, 2], data = [5, 6]\<rparr>, \<lparr>shape = [1, 3], data = [7, 8, 9]\<rparr>)"
    by (simp add: check_signal_dims_def add_channel_def expand_dims1_def ndim_def)
  have h3: "fst (check_signal_dims \<lparr>shape = [2, 1, 2], data = [1, 2, 3, 4 :: int]\<rparr>
          \<lparr>shape = [2, 1, 3], data = [0, 1, 2, 3, 4, 5 :: int]\<rparr>
          \<lparr>shape = [1, 1, 2], data = [5, 6]\<rparr> \<lparr>shape = [1, 3], data = [7, 8, 9]\<rparr>)
     = (\<lparr>shape = [2, 1, 2], data = [1, 2, 3, 4]\<rparr>, \<lparr>shape = [2, 1, 3], data = [0, 1, 2, 3, 4, 5]\<rparr>,
        \<lparr>shape = [1, 1, 2], data = [5, 6]\<rparr>, \<lparr>shape = [1, 3], data = [7, 8, 9]\<rparr>)"
    by (simp add: check_signal_dims_def add_channel_def expand_dims1_def ndim_def)
  show ?thesis
    using h1 h2 h3 check_signal_dims_ranks [OF h1] check_signal_dims_ranks [OF h2]
      check_signal_dims_ranks [OF h3]
    by (simp add: expanded_iff_def ndim_def)
qed

text \<open>
  C8. On arrays that all have rank 4 already, \<open>check_image_dims\<close> returns its arguments
  unchanged and issues no warning. Applied to its own result it changes nothing, so
  twice is the same as once. On a data array of rank 3, of shape \<open>(n, h, w)\<close>, it gives
  the shape \<open>(n, 1, h, w)\<close> and the same elements.
\<close>

theorem check_image_dims_idempotent:
  "(ndim X_train = 4 \<and> ndim y_train = 4 \<and> ndim X_test = 4 \<and> ndim y_test = 4 \<longrightarrow>
      check_image_dims X_train y_train X_test y_test num_classes
        = ((X_train, y_train, X_test, y_test), []))
   \<and> (case fst (check_image_dims X_train y_train X_test y_test num_classes) of
        (X_train', y_train', X_test', y_test') \<Rightarrow>
          check_image_dims X_train' y_train' X_test' y_test' num_classes
            = ((X_train', y_train', X_test', y_test'), [])
          \<and> (shape X_train = [n, h, w] \<longrightarrow>
                shape X_train' = [n, 1, h, w] \<and> data X_train' = data X_train)
          \<and> (shape X_test = [n', h', w'] \<longrightarrow>
                shape X_test' = [n', 1, h', w'] \<and> data X_test' = data X_test))"
  by (simp add: check_image_dims_def add_channel_def ndim_expand_dims1 split_beta Let_def)
     (auto simp: expand_dims1_def ndim_def)

theorem check_image_dims_idempotent_witness:
  "ndim \<lparr>shape = [2, 1, 1, 2], data = [1, 2, 3, 4 :: int]\<rparr> = 4
   \<and> check_image_dims \<lparr>shape = [2, 1, 1, 2], data = [1, 2, 3, 4 :: int]\<rparr>
         \<lparr>shape = [2, 1, 1, 2], data = [0, 1, 1, 0 :: int]\<rparr>
         \<lparr>shape = [1, 1, 1, 2], data = [5, 6]\<rparr> \<lparr>shape = [1, 1, 1, 2], data = [0, 1]\<rparr> 1
     = ((\<lparr>shape = [2, 1, 1, 2], data = [1, 2, 3, 4]\<rparr>, \<lparr>shape = [2, 1, 1, 2], data = [0, 1, 1, 0]\<rparr>,
         \<lparr>shape = [1, 1, 1, 2], data = [5, 6]\<rparr>, \<lparr>shape = [1, 1, 1, 2], data = [0, 1]\<rparr>), [])
   \<and> shape (fst (fst (check_image_dims \<lparr>shape = [2, 1, 2], data = [1, 2, 3, 4 :: int]\<rparr>
         \<lparr>shape = [2, 1, 2], data = [0, 1, 1, 0 :: int]\<rparr>
         \<lparr>shape = [1, 1, 2], data = [5, 6]\<rparr> \<lparr>shape = [1, 1, 2], data = [0, 1]\<rparr> 1)))
     = [2, 1, 1, 2]"
  using check_image_dims_idempotent [of "\<lparr>shape = [2, 1, 1, 2], data = [1, 2, 3, 4 :: int]\<rparr>"
      "\<lparr>shape = [2, 1, 1, 2], data = [0, 1, 1, 0 :: int]\<rparr>"
      "\<lparr>shape = [1, 1, 1, 2], data = [5, 6]\<rparr>" "\<lparr>shape = [1, 1, 1, 2], data = [0, 1]\<rparr>" 1]
    check_image_dims_idempotent [of "\<lparr>shape = [2, 1, 2], data = [1, 2, 3, 4 :: int]\<rparr>"
      "\<lparr>shape = [2, 1, 2], data = [0, 1, 1, 0 :: int]\<rparr>"
      "\<lparr>shape = [1, 1, 2], data = [5, 6]\<rparr>" "\<lparr>shape = [1, 1, 2], data = [0, 1]\<rparr>" 1 2 1 2 1 1 2]
  by (simp add: ndim_def split_beta)

section \<open>The batcher\<close>

subsection \<open>Slicing and splitting\<close>

lemma basic_slice_inside:
  "st + k \<le> N \<Longrightarrow> basic_slice N rest xs st (st + k)
     = \<lparr>shape = k # rest, data = take (k * prod_list rest) (drop (st * prod_list rest) xs)\<rparr>"
  by (simp add: basic_slice_def Let_def min_def)

lemma sub_arys_replicate:
  "st + n * k \<le> N \<Longrightarrow>
     sub_arys N rest xs st (replicate n k)
       = map (\<lambda>i. \<lparr>shape = k # rest,
                    data = take (k * prod_list rest) (drop ((st + i * k) * prod_list rest) xs)\<rparr>)
           [0..<n]"
proof (induction n arbitrary: st)
  case 0
  then show ?case by simp
next
  case (Suc n)
  have le: "st + k \<le> N" and le': "(st + k) + n * k \<le> N" using Suc.prems by simp_all
  have "sub_arys N rest xs st (replicate (Suc n) k)
          = basic_slice N rest xs st (st + k) # sub_arys N rest xs (st + k) (replicate n k)"
    by simp
  also have "\<dots> = \<lparr>shape = k # rest,
                     data = take (k * prod_list rest) (drop (st * prod_list rest) xs)\<rparr>
                   # map (\<lambda>i. \<lparr>shape = k # rest,
                        data = take (k * prod_list rest)
                                 (drop ((st + k + i * k) * prod_list rest) xs)\<rparr>) [0..<n]"
    by (simp only: basic_slice_inside [OF le] Suc.IH [OF le'])
  finally show ?case
    by (simp add: map_upt_Suc add.assoc del: upt_Suc)
qed

lemma np_split_exact:
  assumes "shape a = (n * k) # rest" and "0 < n"
  shows "np_split a (int n)
           = Inr (map (\<lambda>i. \<lparr>shape = k # rest,
                       data = take (k * prod_list rest) (drop (i * k * prod_list rest) (data a))\<rparr>)
                    [0..<n])"
proof -
  have m: "int (n * k) mod int n = 0" by simp
  have "sub_arys (n * k) rest (data a) 0 (replicate n k)
          = map (\<lambda>i. \<lparr>shape = k # rest,
                       data = take (k * prod_list rest) (drop ((0 + i * k) * prod_list rest) (data a))\<rparr>)
              [0..<n]"
    by (rule sub_arys_replicate) simp
  then show ?thesis using assms m
    by (simp add: np_split_def array_split_def np_divmod_def Let_def del: of_nat_mult)
qed

lemma np_split_no_sections:
  "shape a = N # rest \<Longrightarrow> s \<le> 0 \<Longrightarrow> np_split a s = Inl ValueError"
  by (simp add: np_split_def array_split_def)

lemma np_split_error: "np_split a s = Inl e \<Longrightarrow> e = ValueError \<or> e = IndexError"
  by (auto simp: np_split_def array_split_def Let_def split: list.splits if_splits)

lemma slice_to_inside:
  "shape a = N # rest \<Longrightarrow> K \<le> N \<Longrightarrow>
     slice_to a (int K) = Inr \<lparr>shape = K # rest, data = take (K * prod_list rest) (data a)\<rparr>"
  by (simp add: slice_to_def basic_slice_def slice_bound_def Let_def min_def)

lemma slice_to_shape:
  "slice_to a K = Inr a' \<Longrightarrow> \<exists>N rest. shape a = N # rest \<and> shape a' = min (slice_bound N K) N # rest
      \<and> length (data a') \<le> prod_list (shape a')"
  by (auto simp: slice_to_def basic_slice_def Let_def split: list.splits)

lemma slice_to_error: "slice_to a K = Inl e \<Longrightarrow> e = IndexError"
  by (auto simp: slice_to_def split: list.splits)

lemma take_chunk_of_take:
  assumes "i < q"
  shows "take (b * s) (drop (i * b * s) (take (q * b * s) xs)) = take (b * s) (drop (i * b * s) (xs::'a list))"
proof -
  have "Suc i \<le> q" using assms by simp
  then have "Suc i * (b * s) \<le> q * (b * s)" by (rule mult_le_mono1)
  then have "b * s \<le> q * b * s - i * b * s" by (simp add: algebra_simps)
  then show ?thesis by (simp add: drop_take min_def)
qed

lemma cut_and_split:
  assumes "shape a = N # rest" and "0 < b" and "b \<le> N"
  shows "ebind (slice_to a (int (N div b) * int b)) (\<lambda>a'. np_split a' (int (N div b)))
           = Inr (chunks a b (N div b))"
proof -
  let ?q = "N div b"
  have q: "0 < ?q" using assms(2,3) by (simp add: div_greater_zero_iff)
  have le: "?q * b \<le> N" by simp
  have s: "slice_to a (int (?q * b))
             = Inr \<lparr>shape = (?q * b) # rest, data = take (?q * b * prod_list rest) (data a)\<rparr>"
    using assms(1) le by (rule slice_to_inside)
  have sp: "np_split \<lparr>shape = (?q * b) # rest, data = take (?q * b * prod_list rest) (data a)\<rparr> (int ?q)
          = Inr (map (\<lambda>i. \<lparr>shape = b # rest,
                       data = take (b * prod_list rest) (drop (i * b * prod_list rest)
                                (take (?q * b * prod_list rest) (data a)))\<rparr>) [0..<?q])"
    using np_split_exact [of "\<lparr>shape = (?q * b) # rest, data = take (?q * b * prod_list rest) (data a)\<rparr>" ?q b rest, OF _ q]
    by simp
  have "map (\<lambda>i. \<lparr>shape = b # rest,
                       data = take (b * prod_list rest) (drop (i * b * prod_list rest)
                                (take (?q * b * prod_list rest) (data a)))\<rparr>) [0..<?q]
        = chunks a b ?q"
    unfolding chunks_def
    by (rule map_cong) (simp_all add: chunk_def assms(1) take_chunk_of_take)
  moreover have "int ?q * int b = int (?q * b)" by simp
  ultimately show ?thesis using s sp by (simp add: ebind_def del: of_nat_mult)
qed

lemma shape0_Cons: "shape a = n # rest \<Longrightarrow> shape0 a = Inr n"
  by (simp add: shape0_def)

lemma np_divmod_py_pos:
  "0 < b \<Longrightarrow> b < 2 ^ 63 \<Longrightarrow> np_divmod_py a b = Inr (a div b, a mod b)"
  by (simp add: np_divmod_py_def np_divmod_def in_int64_def)

lemma np_divmod_py_overflow: "2 ^ 63 \<le> b \<Longrightarrow> np_divmod_py a b = Inl OverflowError"
  by (simp add: np_divmod_py_def in_int64_def)

text \<open>
  With data arrays of rank 1 or more and a positive batch size in the 64-bit range,
  \<open>ndarray2list\<close> is the four cut-and-split steps in sequence; beyond that range it raises
  \<open>OverflowError\<close>.
\<close>

lemma ndarray2list_steps:
  assumes "shape X_train = n # rx" and "shape X_test = m # tx" and "0 < b" and "b < 2 ^ 63"
  shows "ndarray2list X_train y_train X_test y_test b
    = ebind (ebind (slice_to X_train (int n div b * b)) (\<lambda>a. np_split a (int n div b)))
        (\<lambda>X_train'.
      ebind (ebind (slice_to y_train (int n div b * b)) (\<lambda>a. np_split a (int n div b)))
        (\<lambda>y_train'.
      ebind (ebind (slice_to X_test (int m div b * b)) (\<lambda>a. np_split a (int m div b)))
        (\<lambda>X_test'.
      ebind (ebind (slice_to y_test (int m div b * b)) (\<lambda>a. np_split a (int m div b)))
        (\<lambda>y_test'. Inr (X_train', y_train', X_test', y_test')))))"
  unfolding ndarray2list_def shape0_Cons [OF assms(1)] shape0_Cons [OF assms(2)]
    np_divmod_py_pos [OF assms(3,4)]
  by (simp add: ebind_def [of "Inr x" for x])

lemma ndarray2list_overflow:
  assumes "shape X_train = n # rx" and "2 ^ 63 \<le> b"
  shows "ndarray2list X_train y_train X_test y_test b = Inl OverflowError"
  unfolding ndarray2list_def shape0_Cons [OF assms(1)] np_divmod_py_overflow [OF assms(2)]
  by (simp add: ebind_def)

lemma ebind_Inr: "ebind m f = Inr r \<longleftrightarrow> (\<exists>v. m = Inr v \<and> f v = Inr r)"
  by (cases m) (simp_all add: ebind_def)

lemma ebind_Inl: "ebind m f = Inl e \<longleftrightarrow> m = Inl e \<or> (\<exists>v. m = Inr v \<and> f v = Inl e)"
  by (cases m) (simp_all add: ebind_def)

lemma cut_error:
  "ebind (slice_to a K) (\<lambda>a'. np_split a' s) = Inl e \<Longrightarrow> e = ValueError \<or> e = IndexError"
  by (auto simp: ebind_Inl dest: slice_to_error np_split_error)

lemma cut_no_sections:
  assumes "shape a = N # rest" and "s \<le> 0"
  shows "ebind (slice_to a K) (\<lambda>a'. np_split a' s) = Inl ValueError"
proof -
  obtain a' where a': "slice_to a K = Inr a'" using assms(1) by (simp add: slice_to_def)
  from slice_to_shape [OF a'] obtain N' rest' where "shape a' = N' # rest'" by auto
  then have "np_split a' s = Inl ValueError" using assms(2) by (rule np_split_no_sections)
  with a' show ?thesis by (simp add: ebind_def)
qed


lemma cut_rank_error:
  assumes "shape a = N # rest" and "ebind (slice_to a K) (\<lambda>a'. np_split a' s) = Inl e"
  shows "e = ValueError"
proof -
  obtain a' where a': "slice_to a K = Inr a'" using assms(1) by (simp add: slice_to_def)
  from slice_to_shape [OF a'] obtain N' rest' where "shape a' = N' # rest'" by auto
  then have "np_split a' s = Inl e \<Longrightarrow> e = ValueError"
    by (auto simp: np_split_def array_split_def Let_def split: if_splits)
  with a' assms(2) show ?thesis by (simp add: ebind_def)
qed

lemma int_div_mult_le: "0 < b \<Longrightarrow> (x::int) div b * b \<le> x"
proof -
  assume "0 < b"
  then have "0 \<le> x mod b" by simp
  moreover have "x div b * b + x mod b = x" by simp
  ultimately show ?thesis by linarith
qed

lemma concat_consecutive_takes:
  "concat (map (\<lambda>i. take m (drop (i * m) xs)) [0..<n]) = take (n * m) xs"
proof (induction n)
  case 0
  then show ?case by simp
next
  case (Suc n)
  have "take (Suc n * m) xs = take (n * m) xs @ take m (drop (n * m) xs)"
    by (simp add: take_add [symmetric] add.commute)
  with Suc show ?case by simp
qed

lemma split_concat:
  assumes "np_split a s = Inr cs" and "length (data a) \<le> prod_list (shape a)"
  shows "np_concatenate cs = Inr a"
proof -
  from assms(1) obtain N rest where sh: "shape a = N # rest"
    by (cases "shape a") (simp_all add: np_split_def)
  from assms(1) sh have s: "0 < s" and md: "int N mod s = 0"
    by (auto simp: np_split_def array_split_def np_divmod_def split: if_splits)
  define n where "n = nat s"
  define k where "k = N div n"
  have n: "0 < n" "s = int n" using s by (simp_all add: n_def)
  have "int (N mod n) = 0" using md n by (simp add: zmod_int)
  then have Nk: "N = n * k" by (simp add: k_def mod_eq_0_iff_dvd)
  define st where "st = prod_list rest"
  have cs: "cs = map (\<lambda>i. \<lparr>shape = k # rest,
                       data = take (k * st) (drop (i * k * st) (data a))\<rparr>) [0..<n]"
    using np_split_exact [of a n k rest, OF _ n(1)] assms(1) sh Nk n(2) by (simp add: st_def)
  obtain c cs' where c: "cs = c # cs'" "shape c = k # rest"
    using cs n(1) by (cases n) (auto simp: upt_rec simp del: upt_Suc)
  have all: "list_all (\<lambda>b. shape b \<noteq> [] \<and> tl (shape b) = rest) cs"
    by (simp add: cs list_all_iff)
  have "map (\<lambda>b. hd (shape b)) cs = replicate n k"
    by (simp add: cs map_replicate_const comp_def)
  then have sm: "sum_list (map (\<lambda>b. hd (shape b)) cs) = N" by (simp add: sum_list_replicate Nk)
  have "concat (map data cs) = concat (map (\<lambda>i. take (k * st) (drop (i * (k * st)) (data a))) [0..<n])"
    by (simp add: cs comp_def mult.assoc)
  also have "\<dots> = take (n * (k * st)) (data a)" by (rule concat_consecutive_takes)
  also have "\<dots> = data a" using assms(2) sh by (simp add: Nk st_def mult.assoc)
  finally have dt: "concat (map data cs) = data a" .
  have "np_concatenate cs = Inr \<lparr>shape = N # rest, data = data a\<rparr>"
    using all sm dt by (simp add: np_concatenate_def c)
  also have "\<lparr>shape = N # rest, data = data a\<rparr> = a" using sh by simp
  finally show ?thesis .
qed

lemma cut_concat:
  assumes "ebind (slice_to a K) (\<lambda>a'. np_split a' s) = Inr cs"
  shows "np_concatenate cs = slice_to a K \<and> \<not> isl (slice_to a K)"
proof -
  from assms obtain a' where a': "slice_to a K = Inr a'" and sp: "np_split a' s = Inr cs"
    by (auto simp: ebind_Inr)
  from slice_to_shape [OF a'] have "length (data a') \<le> prod_list (shape a')" by auto
  from split_concat [OF sp this] a' show ?thesis by simp
qed

lemma chunks_wf:
  assumes "wf_ndarray a" and "shape a = n # rest" and "q * b \<le> n" and "c \<in> set (chunks a b q)"
  shows "wf_ndarray c"
proof -
  from assms(4) obtain i where i: "i < q" and c: "c = chunk a b i"
    by (auto simp: chunks_def)
  define s where "s = prod_list rest"
  have len: "length (data a) = n * s" using assms(1,2) by (simp add: wf_ndarray_def s_def)
  have "Suc i \<le> q" using i by simp
  then have "Suc i * b \<le> q * b" by (rule mult_le_mono1)
  then have "Suc i * b \<le> n" using assms(3) by simp
  then have "Suc i * b * s \<le> n * s" by (rule mult_le_mono1)
  then have "b * s \<le> n * s - i * b * s" by (simp add: algebra_simps)
  then show ?thesis
    by (simp add: c chunk_def wf_ndarray_def assms(2) len s_def [symmetric] min_def)
qed

lemma exact_batches_chunks:
  assumes "shape a = n # rest" and "0 < b"
  shows "exact_batches a b (chunks a b (n div b))"
proof -
  have "list_all (\<lambda>c. shape c = b # rest) (chunks a b (n div b))"
    by (simp add: list_all_iff chunks_def chunk_def assms(1))
  moreover have "wf_ndarray a \<longrightarrow> list_all wf_ndarray (chunks a b (n div b))"
    using chunks_wf [OF _ assms(1), of "n div b" b] by (auto simp: list_all_iff)
  moreover have "n - n div b * b < b"
    using assms(2) by (simp add: minus_div_mult_eq_mod)
  moreover have "length (chunks a b (n div b)) = n div b" by (simp add: chunks_def)
  ultimately show ?thesis by (simp add: exact_batches_def assms(1))
qed

subsection \<open>Where \<open>ndarray2list\<close> succeeds, and where it raises\<close>

text \<open>
  On aligned pairs that each hold at least \<open>b\<close> samples, for a positive batch size \<open>b\<close> in
  the 64-bit range, the call succeeds: with \<open>n\<close> the sample count of a pair, both of its
  arrays are cut to their first \<open>(n div b) * b\<close> samples and partitioned, in order, into
  \<open>n div b\<close> chunks of exactly \<open>b\<close> samples each, and the \<open>n - (n div b) * b < b\<close> trailing
  samples are dropped.
\<close>

lemma ndarray2list_exact_batches:
  assumes "0 < b" and "int b < 2 ^ 63"
    and "shape X_train = n # rx" and "shape y_train = n # ry"
    and "shape X_test = m # tx" and "shape y_test = m # ty"
    and "b \<le> n" and "b \<le> m"
  shows "ndarray2list X_train y_train X_test y_test (int b)
           = Inr (chunks X_train b (n div b), chunks y_train b (n div b),
                  chunks X_test b (m div b), chunks y_test b (m div b))
       \<and> exact_batches X_train b (chunks X_train b (n div b))
       \<and> exact_batches y_train b (chunks y_train b (n div b))
       \<and> exact_batches X_test b (chunks X_test b (m div b))
       \<and> exact_batches y_test b (chunks y_test b (m div b))"
proof -
  have b: "(0::int) < int b" using assms(1) by simp
  have q: "int n div int b = int (n div b)" "int m div int b = int (m div b)"
    by (simp_all add: zdiv_int)
  have "ndarray2list X_train y_train X_test y_test (int b)
           = Inr (chunks X_train b (n div b), chunks y_train b (n div b),
                  chunks X_test b (m div b), chunks y_test b (m div b))"
    unfolding ndarray2list_steps [OF assms(3,5) b assms(2)] q
    using assms(1,3-8) by (simp add: cut_and_split ebind_def [of "Inr x" for x] del: of_nat_mult)
  then show ?thesis
    using assms(1,3-6) by (simp add: exact_batches_chunks)
qed

lemma ndarray2list_exact_batches_example:
  "(0::nat) < 2 \<and> (2::nat) \<le> 5 \<and> (2::nat) \<le> 3
   \<and> ndarray2list \<lparr>shape = [5, 2], data = [0, 1, 2, 3, 4, 5, 6, 7, 8, 9 :: int]\<rparr>
         \<lparr>shape = [5], data = [0, 1, 2, 0, 1 :: int]\<rparr>
         \<lparr>shape = [3, 1], data = [20, 21, 22 :: int]\<rparr> \<lparr>shape = [3], data = [2, 1, 0 :: int]\<rparr> (int 2)
       = Inr ([\<lparr>shape = [2, 2], data = [0, 1, 2, 3]\<rparr>, \<lparr>shape = [2, 2], data = [4, 5, 6, 7]\<rparr>],
              [\<lparr>shape = [2], data = [0, 1]\<rparr>, \<lparr>shape = [2], data = [2, 0]\<rparr>],
              [\<lparr>shape = [2, 1], data = [20, 21]\<rparr>], [\<lparr>shape = [2], data = [2, 1]\<rparr>])
   \<and> exact_batches \<lparr>shape = [5, 2], data = [0, 1, 2, 3, 4, 5, 6, 7, 8, 9 :: int]\<rparr> 2
         [\<lparr>shape = [2, 2], data = [0, 1, 2, 3]\<rparr>, \<lparr>shape = [2, 2], data = [4, 5, 6, 7]\<rparr>]
   \<and> exact_batches \<lparr>shape = [5], data = [0, 1, 2, 0, 1 :: int]\<rparr> 2
         [\<lparr>shape = [2], data = [0, 1]\<rparr>, \<lparr>shape = [2], data = [2, 0]\<rparr>]
   \<and> exact_batches \<lparr>shape = [3, 1], data = [20, 21, 22 :: int]\<rparr> 2
         [\<lparr>shape = [2, 1], data = [20, 21]\<rparr>]
   \<and> exact_batches \<lparr>shape = [3], data = [2, 1, 0 :: int]\<rparr> 2 [\<lparr>shape = [2], data = [2, 1]\<rparr>]"
proof -
  have c1: "chunks \<lparr>shape = [5, 2], data = [0, 1, 2, 3, 4, 5, 6, 7, 8, 9 :: int]\<rparr> 2 (5 div 2)
      = [\<lparr>shape = [2, 2], data = [0, 1, 2, 3]\<rparr>, \<lparr>shape = [2, 2], data = [4, 5, 6, 7]\<rparr>]"
    by code_simp
  have c2: "chunks \<lparr>shape = [5], data = [0, 1, 2, 0, 1 :: int]\<rparr> 2 (5 div 2)
      = [\<lparr>shape = [2], data = [0, 1]\<rparr>, \<lparr>shape = [2], data = [2, 0]\<rparr>]"
    by code_simp
  have c3: "chunks \<lparr>shape = [3, 1], data = [20, 21, 22 :: int]\<rparr> 2 (3 div 2)
      = [\<lparr>shape = [2, 1], data = [20, 21]\<rparr>]"
    by code_simp
  have c4: "chunks \<lparr>shape = [3], data = [2, 1, 0 :: int]\<rparr> 2 (3 div 2) = [\<lparr>shape = [2], data = [2, 1]\<rparr>]"
    by code_simp
  have "ndarray2list \<lparr>shape = [5, 2], data = [0, 1, 2, 3, 4, 5, 6, 7, 8, 9 :: int]\<rparr>
         \<lparr>shape = [5], data = [0, 1, 2, 0, 1 :: int]\<rparr>
         \<lparr>shape = [3, 1], data = [20, 21, 22 :: int]\<rparr> \<lparr>shape = [3], data = [2, 1, 0 :: int]\<rparr> (int 2)
       = Inr (chunks \<lparr>shape = [5, 2], data = [0, 1, 2, 3, 4, 5, 6, 7, 8, 9 :: int]\<rparr> 2 (5 div 2),
              chunks \<lparr>shape = [5], data = [0, 1, 2, 0, 1 :: int]\<rparr> 2 (5 div 2),
              chunks \<lparr>shape = [3, 1], data = [20, 21, 22 :: int]\<rparr> 2 (3 div 2),
              chunks \<lparr>shape = [3], data = [2, 1, 0 :: int]\<rparr> 2 (3 div 2))
     \<and> exact_batches \<lparr>shape = [5, 2], data = [0, 1, 2, 3, 4, 5, 6, 7, 8, 9 :: int]\<rparr> 2
         (chunks \<lparr>shape = [5, 2], data = [0, 1, 2, 3, 4, 5, 6, 7, 8, 9 :: int]\<rparr> 2 (5 div 2))
     \<and> exact_batches \<lparr>shape = [5], data = [0, 1, 2, 0, 1 :: int]\<rparr> 2
         (chunks \<lparr>shape = [5], data = [0, 1, 2, 0, 1 :: int]\<rparr> 2 (5 div 2))
     \<and> exact_batches \<lparr>shape = [3, 1], data = [20, 21, 22 :: int]\<rparr> 2
         (chunks \<lparr>shape = [3, 1], data = [20, 21, 22 :: int]\<rparr> 2 (3 div 2))
     \<and> exact_batches \<lparr>shape = [3], data = [2, 1, 0 :: int]\<rparr> 2
         (chunks \<lparr>shape = [3], data = [2, 1, 0 :: int]\<rparr> 2 (3 div 2))"
    by (rule ndarray2list_exact_batches) simp_all
  then show ?thesis unfolding c1 c2 c3 c4 by simp
qed

text \<open>
  When a pair has no full batch, the batch count is 0 and \<open>np.split\<close> is asked for 0
  sections: the call raises \<open>ValueError\<close> (or the \<open>IndexError\<close> of a 0-d training label
  array, when that comes first).
\<close>

lemma ndarray2list_no_full_batch:
  assumes "shape X_train = n # rx" and "shape X_test = m # tx" and "0 < b" and "b < 2 ^ 63"
    and "int n div b = 0 \<or> int m div b = 0"
  shows "(ndarray2list X_train y_train X_test y_test b = Inl ValueError
          \<or> ndarray2list X_train y_train X_test y_test b = Inl IndexError)
       \<and> (shape y_train \<noteq> [] \<longrightarrow>
            ndarray2list X_train y_train X_test y_test b = Inl ValueError)"
proof -
  let ?A = "ebind (slice_to X_train (int n div b * b)) (\<lambda>a. np_split a (int n div b))"
  let ?B = "ebind (slice_to y_train (int n div b * b)) (\<lambda>a. np_split a (int n div b))"
  let ?C = "ebind (slice_to X_test (int m div b * b)) (\<lambda>a. np_split a (int m div b))"
  note R = ndarray2list_steps [OF assms(1-4)]
  have A: "?A = Inl ValueError \<or> (\<exists>v. ?A = Inr v \<and> int n div b \<noteq> 0)"
  proof (cases ?A)
    case (Inl e)
    then show ?thesis using cut_rank_error [OF assms(1) Inl] by simp
  next
    case (Inr v)
    then show ?thesis using cut_no_sections [OF assms(1), of "int n div b" "int n div b * b"]
      by auto
  qed
  have B: "?B = Inl ValueError \<or> ?B = Inl IndexError \<or> (\<exists>v. ?B = Inr v)"
    using cut_error [of y_train "int n div b * b" "int n div b"] by (cases ?B) auto
  have B': "shape y_train \<noteq> [] \<Longrightarrow> ?B = Inl ValueError \<or> (\<exists>v. ?B = Inr v)"
  proof -
    assume "shape y_train \<noteq> []"
    then obtain k ry where "shape y_train = k # ry" by (cases "shape y_train") auto
    from cut_rank_error [OF this] show ?thesis by (cases ?B) auto
  qed
  have C: "int n div b \<noteq> 0 \<Longrightarrow> ?C = Inl ValueError"
    using assms(5) cut_no_sections [OF assms(2), of "int m div b" "int m div b * b"] by simp
  show ?thesis
  proof (intro conjI impI)
    show "ndarray2list X_train y_train X_test y_test b = Inl ValueError
          \<or> ndarray2list X_train y_train X_test y_test b = Inl IndexError"
      using A B C by (auto simp: R ebind_def)
    assume "shape y_train \<noteq> []"
    from A B' [OF this] C show "ndarray2list X_train y_train X_test y_test b = Inl ValueError"
      by (auto simp: R ebind_def)
  qed
qed

subsection \<open>Claims about \<open>ndarray2list\<close>\<close>

text \<open>
  C1. The claim: when the batch size exceeds the sample count of a pair, so that
  \<open>floor(count / batch_size) = 0\<close>, the result for that pair is an empty sequence and the
  call does not fail. The code does not do that. With 3 samples in each pair and a
  batch size of 5 the batch count is 0, the arrays are cut to no samples, and
  \<open>np.split\<close> is asked for 0 sections and raises \<open>ValueError\<close>, where the claim has four
  empty sequences.
\<close>

theorem ndarray2list_oversized_batch_raises:
  "int 3 div 5 = 0
   \<and> ndarray2list \<lparr>shape = [3, 2], data = [0, 1, 2, 3, 4, 5 :: int]\<rparr>
         \<lparr>shape = [3], data = [0, 1, 2 :: int]\<rparr>
         \<lparr>shape = [3, 2], data = [0, 1, 2, 3, 4, 5 :: int]\<rparr> \<lparr>shape = [3], data = [2, 1, 0 :: int]\<rparr> 5
       = Inl ValueError
   \<and> ndarray2list \<lparr>shape = [3, 2], data = [0, 1, 2, 3, 4, 5 :: int]\<rparr>
         \<lparr>shape = [3], data = [0, 1, 2 :: int]\<rparr>
         \<lparr>shape = [3, 2], data = [0, 1, 2, 3, 4, 5 :: int]\<rparr> \<lparr>shape = [3], data = [2, 1, 0 :: int]\<rparr> 5
       \<noteq> Inr ([], [], [], [])"
proof -
  have "ndarray2list \<lparr>shape = [3, 2], data = [0, 1, 2, 3, 4, 5 :: int]\<rparr>
         \<lparr>shape = [3], data = [0, 1, 2 :: int]\<rparr>
         \<lparr>shape = [3, 2], data = [0, 1, 2, 3, 4, 5 :: int]\<rparr> \<lparr>shape = [3], data = [2, 1, 0 :: int]\<rparr> 5
       = Inl ValueError"
    by code_simp
  then show ?thesis by simp
qed

text \<open>
  C6. The claim: for every call with a positive batch size \<open>b\<close>, with
  \<open>n_batches = floor(count / b)\<close>, both arrays of a pair are cut to their first
  \<open>n_batches * b\<close> samples and partitioned into \<open>n_batches\<close> chunks of exactly \<open>b\<close> samples,
  the remainder of fewer than \<open>b\<close> samples being dropped. The code does that whenever each
  pair holds at least \<open>b\<close> samples, and not otherwise. With 7 training samples, 3 test
  samples and a batch size of 5, the claim has one chunk of 5 for each training array
  and no chunk for the test arrays; the code raises \<open>ValueError\<close> and returns nothing,
  the training chunks included.
\<close>

theorem ndarray2list_short_test_pair_raises:
  "int 7 div 5 = 1 \<and> int 3 div 5 = 0
   \<and> ndarray2list \<lparr>shape = [7], data = [0, 1, 2, 3, 4, 5, 6 :: int]\<rparr>
         \<lparr>shape = [7], data = [0, 1, 2, 0, 1, 2, 0 :: int]\<rparr>
         \<lparr>shape = [3], data = [20, 21, 22 :: int]\<rparr> \<lparr>shape = [3], data = [2, 1, 0 :: int]\<rparr> 5
       = Inl ValueError
   \<and> chunks \<lparr>shape = [7], data = [0, 1, 2, 3, 4, 5, 6 :: int]\<rparr> 5 1
       = [\<lparr>shape = [5], data = [0, 1, 2, 3, 4]\<rparr>]
   \<and> chunks \<lparr>shape = [3], data = [20, 21, 22 :: int]\<rparr> 5 0 = []"
proof -
  have "ndarray2list \<lparr>shape = [7], data = [0, 1, 2, 3, 4, 5, 6 :: int]\<rparr>
         \<lparr>shape = [7], data = [0, 1, 2, 0, 1, 2, 0 :: int]\<rparr>
         \<lparr>shape = [3], data = [20, 21, 22 :: int]\<rparr> \<lparr>shape = [3], data = [2, 1, 0 :: int]\<rparr> 5
       = Inl ValueError"
    by code_simp
  moreover have "chunks \<lparr>shape = [7], data = [0, 1, 2, 3, 4, 5, 6 :: int]\<rparr> 5 1
       = [\<lparr>shape = [5], data = [0, 1, 2, 3, 4]\<rparr>]"
    by code_simp
  moreover have "chunks \<lparr>shape = [3], data = [20, 21, 22 :: int]\<rparr> 5 0 = []"
    by code_simp
  ultimately show ?thesis by simp
qed

text \<open>
  C7. Whenever \<open>ndarray2list\<close> succeeds for a positive batch size, concatenating the
  chunks of each of the four sequences, in order and along axis 0, gives exactly the
  array that was cut from the original: its first \<open>n_batches * batch_size\<close> samples in
  their original order, where \<open>n_batches\<close> is the batch count of the pair. For the data
  arrays that is \<open>n_batches * batch_size\<close> samples.
\<close>

theorem ndarray2list_concatenate:
  assumes "ndarray2list X_train y_train X_test y_test b = Inr (Xs, ys, Xts, yts)"
    and "shape X_train = n # rx" and "shape X_test = m # tx" and "0 < b"
  shows "np_concatenate Xs = slice_to X_train (int n div b * b)
       \<and> np_concatenate ys = slice_to y_train (int n div b * b)
       \<and> np_concatenate Xts = slice_to X_test (int m div b * b)
       \<and> np_concatenate yts = slice_to y_test (int m div b * b)
       \<and> \<not> isl (np_concatenate Xs) \<and> \<not> isl (np_concatenate ys)
       \<and> \<not> isl (np_concatenate Xts) \<and> \<not> isl (np_concatenate yts)
       \<and> ebind (np_concatenate Xs) shape0 = Inr (nat (int n div b * b))
       \<and> ebind (np_concatenate Xts) shape0 = Inr (nat (int m div b * b))"
proof -
  let ?A = "ebind (slice_to X_train (int n div b * b)) (\<lambda>a. np_split a (int n div b))"
  let ?B = "ebind (slice_to y_train (int n div b * b)) (\<lambda>a. np_split a (int n div b))"
  let ?C = "ebind (slice_to X_test (int m div b * b)) (\<lambda>a. np_split a (int m div b))"
  let ?D = "ebind (slice_to y_test (int m div b * b)) (\<lambda>a. np_split a (int m div b))"
  have b: "b < 2 ^ 63"
  proof (rule ccontr)
    assume "\<not> b < 2 ^ 63"
    then have "2 ^ 63 \<le> b" by simp
    from ndarray2list_overflow [OF assms(2) this, of y_train X_test y_test] assms(1)
    show False by simp
  qed
  from assms(1) have A: "?A = Inr Xs" and B: "?B = Inr ys" and C: "?C = Inr Xts" and D: "?D = Inr yts"
    unfolding ndarray2list_steps [OF assms(2,3,4) b]
    by (auto simp: ebind_Inr [of "ebind x y" for x y])
  have le: "0 \<le> int n div b * b" "int n div b * b \<le> int n"
    "0 \<le> int m div b * b" "int m div b * b \<le> int m"
    using assms(4) by (simp_all add: pos_imp_zdiv_nonneg_iff int_div_mult_le)
  have sX: "ebind (slice_to X_train (int n div b * b)) shape0 = Inr (nat (int n div b * b))"
    using le(1,2) assms(2)
    by (auto simp: slice_to_def basic_slice_def slice_bound_def Let_def ebind_def shape0_def min_def)
  have sXt: "ebind (slice_to X_test (int m div b * b)) shape0 = Inr (nat (int m div b * b))"
    using le(3,4) assms(3)
    by (auto simp: slice_to_def basic_slice_def slice_bound_def Let_def ebind_def shape0_def min_def)
  from cut_concat [OF A] cut_concat [OF B] cut_concat [OF C] cut_concat [OF D] sX sXt
  show ?thesis by simp
qed

theorem ndarray2list_concatenate_witness:
  "ndarray2list \<lparr>shape = [5], data = [0, 1, 2, 3, 4 :: int]\<rparr>
       \<lparr>shape = [4, 2], data = [0, 1, 2, 3, 4, 5, 6, 7 :: int]\<rparr>
       \<lparr>shape = [3], data = [20, 21, 22 :: int]\<rparr> \<lparr>shape = [2], data = [2, 1 :: int]\<rparr> 2
     = Inr ([\<lparr>shape = [2], data = [0, 1]\<rparr>, \<lparr>shape = [2], data = [2, 3]\<rparr>],
            [\<lparr>shape = [2, 2], data = [0, 1, 2, 3]\<rparr>, \<lparr>shape = [2, 2], data = [4, 5, 6, 7]\<rparr>],
            [\<lparr>shape = [2], data = [20, 21]\<rparr>], [\<lparr>shape = [2], data = [2, 1]\<rparr>])
   \<and> (0::int) < 2
   \<and> np_concatenate [\<lparr>shape = [2], data = [0, 1 :: int]\<rparr>, \<lparr>shape = [2], data = [2, 3]\<rparr>]
       = Inr \<lparr>shape = [4], data = [0, 1, 2, 3]\<rparr>
   \<and> slice_to \<lparr>shape = [5], data = [0, 1, 2, 3, 4 :: int]\<rparr> 4 = Inr \<lparr>shape = [4], data = [0, 1, 2, 3]\<rparr>
   \<and> np_concatenate [\<lparr>shape = [2, 2], data = [0, 1, 2, 3 :: int]\<rparr>, \<lparr>shape = [2, 2], data = [4, 5, 6, 7]\<rparr>]
       = Inr \<lparr>shape = [4, 2], data = [0, 1, 2, 3, 4, 5, 6, 7]\<rparr>
   \<and> np_concatenate [\<lparr>shape = [2], data = [20, 21 :: int]\<rparr>] = Inr \<lparr>shape = [2], data = [20, 21]\<rparr>
   \<and> np_concatenate [\<lparr>shape = [2], data = [2, 1 :: int]\<rparr>] = Inr \<lparr>shape = [2], data = [2, 1]\<rparr>"
proof -
  have r: "ndarray2list \<lparr>shape = [5], data = [0, 1, 2, 3, 4 :: int]\<rparr>
       \<lparr>shape = [4, 2], data = [0, 1, 2, 3, 4, 5, 6, 7 :: int]\<rparr>
       \<lparr>shape = [3], data = [20, 21, 22 :: int]\<rparr> \<lparr>shape = [2], data = [2, 1 :: int]\<rparr> 2
     = Inr ([\<lparr>shape = [2], data = [0, 1]\<rparr>, \<lparr>shape = [2], data = [2, 3]\<rparr>],
            [\<lparr>shape = [2, 2], data = [0, 1, 2, 3]\<rparr>, \<lparr>shape = [2, 2], data = [4, 5, 6, 7]\<rparr>],
            [\<lparr>shape = [2], data = [20, 21]\<rparr>], [\<lparr>shape = [2], data = [2, 1]\<rparr>])"
    by code_simp
  have s1: "slice_to \<lparr>shape = [5], data = [0, 1, 2, 3, 4 :: int]\<rparr> 4
      = Inr \<lparr>shape = [4], data = [0, 1, 2, 3]\<rparr>"
    by code_simp
  have s2: "slice_to \<lparr>shape = [4, 2], data = [0, 1, 2, 3, 4, 5, 6, 7 :: int]\<rparr> 4
      = Inr \<lparr>shape = [4, 2], data = [0, 1, 2, 3, 4, 5, 6, 7]\<rparr>"
    by code_simp
  have s3: "slice_to \<lparr>shape = [3], data = [20, 21, 22 :: int]\<rparr> 2 = Inr \<lparr>shape = [2], data = [20, 21]\<rparr>"
    by code_simp
  have s4: "slice_to \<lparr>shape = [2], data = [2, 1 :: int]\<rparr> 2 = Inr \<lparr>shape = [2], data = [2, 1]\<rparr>"
    by code_simp
  have k: "int 5 div 2 * 2 = 4" "int 3 div 2 * 2 = 2" by simp_all
  from ndarray2list_concatenate [OF r, of 5 "[]" 3 "[]"] r s1 s2 s3 s4
  show ?thesis unfolding k by simp
qed

section \<open>The pipeline\<close>



end
